theory Spec2Isabelle
  imports Complex_Main
begin

section \<open>Data model of the dashboard\<close>

text \<open>
  The dashboard is one TypeScript module. Its numbers are JavaScript numbers. The
  thresholds come from numeric input fields (finite values), so they are modelled as
  \<^typ>\<open>real\<close>, on which \<open>\<ge>\<close> is the comparison of the source. The metric generator only
  ever adds and compares small integers, which are exact, so its values are \<^typ>\<open>int\<close>;
  a \<open>Date\<close> is its number of milliseconds since the epoch.
\<close>

datatype severity = Low | Medium | High

record Alert =
  id_alert :: string
  timestamp_alert :: int
  severity :: severity
  source :: string
  description :: string
  acknowledged :: bool
  dismissed :: bool

record ServerMetric =
  timestamp :: int
  cpu :: int
  memory :: int
  disk :: int
  temperature :: int
  network :: int
  errors :: int
  users :: int
  responseTime :: int

record Threshold =
  warning :: real
  critical :: real

record Thresholds =
  cpu_th :: Threshold
  memory_th :: Threshold
  disk_th :: Threshold
  temperature_th :: Threshold
  network_th :: Threshold
  errors_th :: Threshold

text \<open>The type \<open>keyof Thresholds\<close> and the type \<open>"warning" | "critical"\<close> of a level.\<close>

datatype metric_key = KCpu | KMemory | KDisk | KTemperature | KNetwork | KErrors

datatype level = LWarning | LCritical

section \<open>Threshold evaluator\<close>

definition getStatusColor :: "real \<Rightarrow> real \<Rightarrow> real \<Rightarrow> string" where
  "getStatusColor v warningThreshold criticalThreshold =
     (if v \<ge> criticalThreshold then ''rgb(239, 68, 68)''
      else if v \<ge> warningThreshold then ''rgb(234, 179, 8)''
      else ''rgb(34, 197, 94)'')"

definition getStatusClass :: "real \<Rightarrow> real \<Rightarrow> real \<Rightarrow> string" where
  "getStatusClass v warningThreshold criticalThreshold =
     (if v \<ge> criticalThreshold then ''bg-red-500''
      else if v \<ge> warningThreshold then ''bg-yellow-500''
      else ''bg-green-500'')"

text \<open>
  The status text that \<open>StatusCard\<close> and \<open>TemperatureCard\<close> print beside the value, in
  the colour given by \<open>getStatusColor\<close>: here the warning threshold is tested first.
\<close>

definition statusLabel :: "real \<Rightarrow> real \<Rightarrow> real \<Rightarrow> string" where
  "statusLabel v warningThreshold criticalThreshold =
     (if v < warningThreshold then ''Normal''
      else if v < criticalThreshold then ''Warning''
      else ''Critical'')"

text \<open>
  The contract of the specification, in its own words: a tri-state classification, and
  the companion maps from a classification to the display colour, the status text and the
  CSS class.
\<close>

datatype status = Normal | Warning | Critical

definition classify_spec :: "real \<Rightarrow> real \<Rightarrow> real \<Rightarrow> status" where
  "classify_spec v w c = (if v \<ge> c then Critical else if v \<ge> w then Warning else Normal)"

fun status_color :: "status \<Rightarrow> string" where
  "status_color Critical = ''rgb(239, 68, 68)''"
| "status_color Warning = ''rgb(234, 179, 8)''"
| "status_color Normal = ''rgb(34, 197, 94)''"

fun status_name :: "status \<Rightarrow> string" where
  "status_name Critical = ''Critical''"
| "status_name Warning = ''Warning''"
| "status_name Normal = ''Normal''"

fun status_class :: "status \<Rightarrow> string" where
  "status_class Critical = ''bg-red-500''"
| "status_class Warning = ''bg-yellow-500''"
| "status_class Normal = ''bg-green-500''"

section \<open>Metric series generator\<close>

text \<open>
  \<open>Math.random()\<close> is the only source of randomness. A run of the program sees a
  sequence of its results, \<open>rnd 0\<close>, \<open>rnd 1\<close>, ...; every call consumes the next one, so
  the functions below carry the position \<open>k\<close> of the next result. Each result lies in
  the half-open interval from 0 to 1.
\<close>

type_synonym rng = "nat \<Rightarrow> real"

definition valid_rng :: "rng \<Rightarrow> bool" where
  "valid_rng rnd \<longleftrightarrow> (\<forall>n. 0 \<le> rnd n \<and> rnd n < 1)"

text \<open>
  \<open>getRandomValue(min, max)\<close>, given the result \<open>r\<close> of its call of \<open>Math.random()\<close>:
  \<open>Math.floor(r * (max - min + 1)) + min\<close>. The product is taken over the reals.
\<close>

definition getRandomValue :: "int \<Rightarrow> int \<Rightarrow> real \<Rightarrow> int" where
  "getRandomValue lo hi r = \<lfloor>r * real_of_int (hi - lo + 1)\<rfloor> + lo"

text \<open>The \<open>switch\<close> on the time range: the number of points and the interval in ms.\<close>

definition rangePolicy :: "string \<Rightarrow> int \<times> int" where
  "rangePolicy tr =
     (if tr = ''1h'' then (60, 60 * 1000)
      else if tr = ''24h'' then (24, 60 * 60 * 1000)
      else if tr = ''7d'' then (7, 24 * 60 * 60 * 1000)
      else if tr = ''30d'' then (30, 24 * 60 * 60 * 1000)
      else (24, 60 * 60 * 1000))"

text \<open>The eight \<open>let\<close> variables that drift from one sample to the next.\<close>

record Bases =
  baseCpu :: int
  baseMemory :: int
  baseDisk :: int
  baseTemp :: int
  baseNetwork :: int
  baseErrors :: int
  baseUsers :: int
  baseResponseTime :: int

text \<open>
  One pass through the body of the \<open>for\<close> loop, at index \<open>i\<close>, with the next random
  result at position \<open>k\<close>: the sample pushed, the updated base values and the position
  after the pass. The two spike draws are made only at the spike point.
\<close>

definition loopBody ::
  "int \<Rightarrow> int \<Rightarrow> int \<Rightarrow> int \<Rightarrow> rng \<Rightarrow> int \<Rightarrow> nat \<Rightarrow> Bases \<Rightarrow> ServerMetric \<times> Bases \<times> nat" where
  "loopBody points interval now spikePoint rnd i k b =
     (let ts = now - (points - i - 1) * interval;
          fluctuation = getRandomValue (- 5) 5 (rnd k);
          cpuSpike = (if i = spikePoint then getRandomValue 20 40 (rnd (k + 1)) else 0);
          memorySpike = (if i = spikePoint then getRandomValue 15 30 (rnd (k + 2)) else 0);
          k2 = (if i = spikePoint then k + 3 else k + 1);
          s = \<lparr> timestamp = ts,
                cpu = min 100 (max 0 (baseCpu b + fluctuation + cpuSpike)),
                memory = min 100 (max 0 (baseMemory b + fluctuation + memorySpike)),
                disk = min 100 (max 0 (baseDisk b + getRandomValue (- 2) 2 (rnd k2))),
                temperature = min 50 (max 15 (baseTemp b + getRandomValue (- 3) 3 (rnd (k2 + 1)))),
                network = min 100 (max 0 (baseNetwork b + getRandomValue (- 10) 10 (rnd (k2 + 2)))),
                errors = max 0 (baseErrors b + getRandomValue (- 2) 3 (rnd (k2 + 3))),
                users = max 0 (baseUsers b + getRandomValue (- 20) 20 (rnd (k2 + 4))),
                responseTime = max 50 (baseResponseTime b + getRandomValue (- 50) 50 (rnd (k2 + 5))) \<rparr>;
          b' = \<lparr> baseCpu = baseCpu b + getRandomValue (- 2) 2 (rnd (k2 + 6)),
                 baseMemory = baseMemory b + getRandomValue (- 1) 2 (rnd (k2 + 7)),
                 baseDisk = baseDisk b + getRandomValue 0 1 (rnd (k2 + 8)),
                 baseTemp = baseTemp b + getRandomValue (- 1) 1 (rnd (k2 + 9)),
                 baseNetwork = baseNetwork b + getRandomValue (- 5) 5 (rnd (k2 + 10)),
                 baseErrors = baseErrors b + getRandomValue (- 1) 1 (rnd (k2 + 11)),
                 baseUsers = baseUsers b + getRandomValue (- 10) 10 (rnd (k2 + 12)),
                 baseResponseTime = baseResponseTime b + getRandomValue (- 20) 20 (rnd (k2 + 13)) \<rparr>
      in (s, b', k2 + 14))"

text \<open>The loop \<open>for (let i = 0; i < points; i++)\<close>; \<open>data.push\<close> appends.\<close>

function generateLoop ::
  "int \<Rightarrow> int \<Rightarrow> int \<Rightarrow> int \<Rightarrow> rng \<Rightarrow> int \<Rightarrow> nat \<Rightarrow> Bases \<Rightarrow> ServerMetric list \<Rightarrow> ServerMetric list" where
  "generateLoop points interval now spikePoint rnd i k b data =
     (if i < points then
        (case loopBody points interval now spikePoint rnd i k b of
           (s, b', k') \<Rightarrow> generateLoop points interval now spikePoint rnd (i + 1) k' b' (data @ [s]))
      else data)"
  by pat_completeness auto
termination
  by (relation "measure (\<lambda>(points, interval, now, spikePoint, rnd, i, k, b, data). nat (points - i))")
     auto

declare generateLoop.simps [simp del]

text \<open>
  \<open>generateMockData(timeRange)\<close>, given the time \<open>now\<close> read by \<open>new Date()\<close> (in
  milliseconds) and the results of \<open>Math.random()\<close>: eight draws seed the base values,
  the ninth picks the spike point, the loop starts at position 9.
\<close>

definition generateMockData :: "string \<Rightarrow> int \<Rightarrow> rng \<Rightarrow> ServerMetric list" where
  "generateMockData tr now rnd =
     (case rangePolicy tr of
        (points, interval) \<Rightarrow>
          (let b = \<lparr> baseCpu = getRandomValue 30 60 (rnd 0),
                     baseMemory = getRandomValue 40 70 (rnd 1),
                     baseDisk = getRandomValue 50 80 (rnd 2),
                     baseTemp = getRandomValue 20 30 (rnd 3),
                     baseNetwork = getRandomValue 30 70 (rnd 4),
                     baseErrors = getRandomValue 0 10 (rnd 5),
                     baseUsers = getRandomValue 50 200 (rnd 6),
                     baseResponseTime = getRandomValue 100 500 (rnd 7) \<rparr>;
               spikePoint = getRandomValue 0 (points - 1) (rnd 8)
           in generateLoop points interval now spikePoint rnd 0 9 b []))"

text \<open>
  The specification's words for the shape of a series: exactly \<open>n\<close> samples, each one
  \<open>d\<close> milliseconds after the one before, the last one at the time \<open>now\<close>.
\<close>

definition evenlySpacedUntil :: "nat \<Rightarrow> int \<Rightarrow> int \<Rightarrow> ServerMetric list \<Rightarrow> bool" where
  "evenlySpacedUntil n d now xs \<longleftrightarrow>
     length xs = n \<and> xs \<noteq> [] \<and> timestamp (last xs) = now
     \<and> (\<forall>j. Suc j < length xs \<longrightarrow> timestamp (xs ! Suc j) = timestamp (xs ! j) + d)"

section \<open>Alert store, thresholds and panel coordinator\<close>

definition generateMockAlerts :: "int \<Rightarrow> Alert list" where
  "generateMockAlerts now =
     [ \<lparr> id_alert = ''alert-001'', timestamp_alert = now - 5 * 60 * 1000, severity = High,
         source = ''Web Server 1'', description = ''CPU usage exceeded 90% for 5 minutes'',
         acknowledged = False, dismissed = False \<rparr>,
       \<lparr> id_alert = ''alert-002'', timestamp_alert = now - 15 * 60 * 1000, severity = Medium,
         source = ''API Server'', description = ''Memory usage at 75%, approaching threshold'',
         acknowledged = True, dismissed = False \<rparr>,
       \<lparr> id_alert = ''alert-003'', timestamp_alert = now - 45 * 60 * 1000, severity = Low,
         source = ''Database Replica'', description = ''Replication lag increased to 5 seconds'',
         acknowledged = False, dismissed = False \<rparr>,
       \<lparr> id_alert = ''alert-004'', timestamp_alert = now - 120 * 60 * 1000, severity = High,
         source = ''Cache Server'', description = ''Service restarted unexpectedly'',
         acknowledged = False, dismissed = False \<rparr>,
       \<lparr> id_alert = ''alert-005'', timestamp_alert = now - 180 * 60 * 1000, severity = High,
         source = ''Backup Server'', description = ''Server unreachable, backup process failed'',
         acknowledged = True, dismissed = False \<rparr> ]"

text \<open>The state held by \<open>DashboardProvider\<close>: one field for each \<open>useState\<close>.\<close>

record Dashboard =
  darkMode :: bool
  timeRange :: string
  showSidebar :: bool
  alerts :: "Alert list"
  showNotifications :: bool
  showSettings :: bool
  expandedWidget :: "string option"
  activeSidebarItem :: string
  showServersPanel :: bool
  showAlertsPanel :: bool
  showUsersPanel :: bool
  showReportsPanel :: bool
  isLandingPage :: bool
  thresholds :: Thresholds

definition defaultThresholds :: Thresholds where
  "defaultThresholds =
     \<lparr> cpu_th = \<lparr> warning = 70, critical = 90 \<rparr>,
       memory_th = \<lparr> warning = 70, critical = 90 \<rparr>,
       disk_th = \<lparr> warning = 70, critical = 90 \<rparr>,
       temperature_th = \<lparr> warning = 30, critical = 40 \<rparr>,
       network_th = \<lparr> warning = 80, critical = 95 \<rparr>,
       errors_th = \<lparr> warning = 5, critical = 15 \<rparr> \<rparr>"

text \<open>The initial values of the \<open>useState\<close> calls; \<open>now\<close> is the time of the first render.\<close>

definition initialDashboard :: "int \<Rightarrow> Dashboard" where
  "initialDashboard now =
     \<lparr> darkMode = False, timeRange = ''24h'', showSidebar = True,
       alerts = generateMockAlerts now, showNotifications = False, showSettings = False,
       expandedWidget = None, activeSidebarItem = ''dashboard'',
       showServersPanel = False, showAlertsPanel = False, showUsersPanel = False,
       showReportsPanel = False, isLandingPage = True, thresholds = defaultThresholds \<rparr>"

definition toggleDarkMode :: "Dashboard \<Rightarrow> Dashboard" where
  "toggleDarkMode s = s\<lparr>darkMode := \<not> darkMode s\<rparr>"

definition toggleSidebar :: "Dashboard \<Rightarrow> Dashboard" where
  "toggleSidebar s = s\<lparr>showSidebar := \<not> showSidebar s\<rparr>"

definition toggleNotifications :: "Dashboard \<Rightarrow> Dashboard" where
  "toggleNotifications s = s\<lparr>showNotifications := \<not> showNotifications s\<rparr>"

definition toggleSettings :: "Dashboard \<Rightarrow> Dashboard" where
  "toggleSettings s = s\<lparr>showSettings := \<not> showSettings s\<rparr>"

text \<open>
  Each panel toggle reads the flag of the current render, writes its negation, and when
  the flag was off also writes \<open>false\<close> to the three other panel flags.
\<close>

definition toggleServersPanel :: "Dashboard \<Rightarrow> Dashboard" where
  "toggleServersPanel s =
     (let s1 = s\<lparr>showServersPanel := \<not> showServersPanel s\<rparr>
      in if \<not> showServersPanel s
         then s1\<lparr>showAlertsPanel := False, showUsersPanel := False, showReportsPanel := False\<rparr>
         else s1)"

definition toggleAlertsPanel :: "Dashboard \<Rightarrow> Dashboard" where
  "toggleAlertsPanel s =
     (let s1 = s\<lparr>showAlertsPanel := \<not> showAlertsPanel s\<rparr>
      in if \<not> showAlertsPanel s
         then s1\<lparr>showServersPanel := False, showUsersPanel := False, showReportsPanel := False\<rparr>
         else s1)"

definition toggleUsersPanel :: "Dashboard \<Rightarrow> Dashboard" where
  "toggleUsersPanel s =
     (let s1 = s\<lparr>showUsersPanel := \<not> showUsersPanel s\<rparr>
      in if \<not> showUsersPanel s
         then s1\<lparr>showServersPanel := False, showAlertsPanel := False, showReportsPanel := False\<rparr>
         else s1)"

definition toggleReportsPanel :: "Dashboard \<Rightarrow> Dashboard" where
  "toggleReportsPanel s =
     (let s1 = s\<lparr>showReportsPanel := \<not> showReportsPanel s\<rparr>
      in if \<not> showReportsPanel s
         then s1\<lparr>showServersPanel := False, showAlertsPanel := False, showUsersPanel := False\<rparr>
         else s1)"

definition dismissAlert :: "string \<Rightarrow> Dashboard \<Rightarrow> Dashboard" where
  "dismissAlert i s =
     s\<lparr>alerts := map (\<lambda>a. if id_alert a = i then a\<lparr>dismissed := True\<rparr> else a) (alerts s)\<rparr>"

definition acknowledgeAlert :: "string \<Rightarrow> Dashboard \<Rightarrow> Dashboard" where
  "acknowledgeAlert i s =
     s\<lparr>alerts := map (\<lambda>a. if id_alert a = i then a\<lparr>acknowledged := True\<rparr> else a) (alerts s)\<rparr>"

text \<open>Reading and writing a property by a computed key: \<open>thresholds[key]\<close>, \<open>[level]: value\<close>.\<close>

fun threshold_at :: "Thresholds \<Rightarrow> metric_key \<Rightarrow> Threshold" where
  "threshold_at t KCpu = cpu_th t"
| "threshold_at t KMemory = memory_th t"
| "threshold_at t KDisk = disk_th t"
| "threshold_at t KTemperature = temperature_th t"
| "threshold_at t KNetwork = network_th t"
| "threshold_at t KErrors = errors_th t"

fun threshold_put :: "metric_key \<Rightarrow> Threshold \<Rightarrow> Thresholds \<Rightarrow> Thresholds" where
  "threshold_put KCpu p t = t\<lparr>cpu_th := p\<rparr>"
| "threshold_put KMemory p t = t\<lparr>memory_th := p\<rparr>"
| "threshold_put KDisk p t = t\<lparr>disk_th := p\<rparr>"
| "threshold_put KTemperature p t = t\<lparr>temperature_th := p\<rparr>"
| "threshold_put KNetwork p t = t\<lparr>network_th := p\<rparr>"
| "threshold_put KErrors p t = t\<lparr>errors_th := p\<rparr>"

fun level_at :: "Threshold \<Rightarrow> level \<Rightarrow> real" where
  "level_at p LWarning = warning p"
| "level_at p LCritical = critical p"

fun level_put :: "level \<Rightarrow> real \<Rightarrow> Threshold \<Rightarrow> Threshold" where
  "level_put LWarning v p = p\<lparr>warning := v\<rparr>"
| "level_put LCritical v p = p\<lparr>critical := v\<rparr>"

definition updateThreshold :: "metric_key \<Rightarrow> level \<Rightarrow> real \<Rightarrow> Dashboard \<Rightarrow> Dashboard" where
  "updateThreshold key lvl v s =
     s\<lparr>thresholds :=
         threshold_put key (level_put lvl v (threshold_at (thresholds s) key)) (thresholds s)\<rparr>"

definition setTimeRange :: "string \<Rightarrow> Dashboard \<Rightarrow> Dashboard" where
  "setTimeRange r s = s\<lparr>timeRange := r\<rparr>"

definition setExpandedWidget :: "string option \<Rightarrow> Dashboard \<Rightarrow> Dashboard" where
  "setExpandedWidget w s = s\<lparr>expandedWidget := w\<rparr>"

definition setActiveSidebarItem :: "string \<Rightarrow> Dashboard \<Rightarrow> Dashboard" where
  "setActiveSidebarItem item s = s\<lparr>activeSidebarItem := item\<rparr>"

definition setIsLandingPage :: "bool \<Rightarrow> Dashboard \<Rightarrow> Dashboard" where
  "setIsLandingPage v s = s\<lparr>isLandingPage := v\<rparr>"

text \<open>The derived values: the badge count of the provider and the list of \<open>AlertsPanel\<close>.\<close>

definition notificationCount :: "Dashboard \<Rightarrow> nat" where
  "notificationCount s = length (filter (\<lambda>a. \<not> acknowledged a \<and> \<not> dismissed a) (alerts s))"

definition activeAlerts :: "Dashboard \<Rightarrow> Alert list" where
  "activeAlerts s = filter (\<lambda>a. \<not> dismissed a) (alerts s)"

text \<open>\<open>handleItemClick\<close> of the sidebar.\<close>

definition handleItemClick :: "string \<Rightarrow> Dashboard \<Rightarrow> Dashboard" where
  "handleItemClick item s =
     (let s1 = setActiveSidebarItem item s
      in if item = ''dashboard'' then setIsLandingPage False s1
         else if item = ''servers'' then toggleServersPanel s1
         else if item = ''alerts'' then toggleAlertsPanel s1
         else if item = ''users'' then toggleUsersPanel s1
         else if item = ''reports'' then toggleReportsPanel s1
         else s1)"

text \<open>
  The timer callback that injects an alert: with the time \<open>now\<close> read by \<open>Date.now()\<close>
  and four results of \<open>Math.random()\<close>, in the order of the calls. The identifier is
  \<open>alert-\<close> followed by the decimal digits of \<open>now\<close>; the new alert is put in front.
\<close>

fun digits :: "nat \<Rightarrow> string" where
  "digits n = (if n < 10 then [char_of (48 + n)] else digits (n div 10) @ [char_of (48 + n mod 10)])"

declare digits.simps [simp del]

definition decimal :: "int \<Rightarrow> string" where
  "decimal n = (if n < 0 then ''-'' @ digits (nat (- n)) else digits (nat n))"

definition alertSources :: "string list" where
  "alertSources = [''Web Server 1'', ''API Server'', ''Database Primary'', ''Database Replica'',
     ''Cache Server'', ''Backup Server'']"

definition alertSeverities :: "severity list" where
  "alertSeverities = [Low, Medium, High]"

definition alertDescriptions :: "string list" where
  "alertDescriptions = [''CPU usage spike detected'', ''Memory usage approaching threshold'',
     ''Disk space running low'', ''High network latency detected'', ''Error rate increased'',
     ''Service restarted unexpectedly'', ''Connection timeout'',
     ''Database query performance degraded'']"

text \<open>
  \<open>xs[Math.floor(r * xs.length)]\<close>, where \<open>r\<close> is a result of \<open>Math.random()\<close>, so that
  the index is a position of the list.
\<close>

definition pick :: "'a list \<Rightarrow> real \<Rightarrow> 'a" where
  "pick xs r = xs ! nat \<lfloor>r * real (length xs)\<rfloor>"

definition alertTick :: "int \<Rightarrow> real \<Rightarrow> real \<Rightarrow> real \<Rightarrow> real \<Rightarrow> Dashboard \<Rightarrow> Dashboard" where
  "alertTick now r0 r1 r2 r3 s =
     (if r0 < 3 / 10 then
        (let newAlert = \<lparr> id_alert = ''alert-'' @ decimal now, timestamp_alert = now,
                           severity = pick alertSeverities r1, source = pick alertSources r2,
                           description = pick alertDescriptions r3,
                           acknowledged = False, dismissed = False \<rparr>
         in s\<lparr>alerts := newAlert # alerts s\<rparr>)
      else s)"

text \<open>
  The events of the provider, one step of the dashboard for each, and the states that
  can be reached from the initial one.
\<close>

datatype event =
    ToggleDarkMode | ToggleSidebar | ToggleNotifications | ToggleSettings
  | ToggleServersPanel | ToggleAlertsPanel | ToggleUsersPanel | ToggleReportsPanel
  | DismissAlert string | AcknowledgeAlert string
  | UpdateThreshold metric_key level real
  | SetTimeRange string | SetExpandedWidget "string option"
  | SetActiveSidebarItem string | SetIsLandingPage bool
  | HandleItemClick string
  | AlertTick int real real real real

fun step :: "event \<Rightarrow> Dashboard \<Rightarrow> Dashboard" where
  "step ToggleDarkMode s = toggleDarkMode s"
| "step ToggleSidebar s = toggleSidebar s"
| "step ToggleNotifications s = toggleNotifications s"
| "step ToggleSettings s = toggleSettings s"
| "step ToggleServersPanel s = toggleServersPanel s"
| "step ToggleAlertsPanel s = toggleAlertsPanel s"
| "step ToggleUsersPanel s = toggleUsersPanel s"
| "step ToggleReportsPanel s = toggleReportsPanel s"
| "step (DismissAlert i) s = dismissAlert i s"
| "step (AcknowledgeAlert i) s = acknowledgeAlert i s"
| "step (UpdateThreshold key lvl v) s = updateThreshold key lvl v s"
| "step (SetTimeRange r) s = setTimeRange r s"
| "step (SetExpandedWidget w) s = setExpandedWidget w s"
| "step (SetActiveSidebarItem item) s = setActiveSidebarItem item s"
| "step (SetIsLandingPage v) s = setIsLandingPage v s"
| "step (HandleItemClick item) s = handleItemClick item s"
| "step (AlertTick now r0 r1 r2 r3) s = alertTick now r0 r1 r2 r3 s"

inductive reachable :: "Dashboard \<Rightarrow> bool" where
  init: "reachable (initialDashboard now)"
| next_state: "reachable s \<Longrightarrow> reachable (step e s)"

text \<open>
  A run of the dashboard: the events are handled one after the other, each on the state
  the one before has left. \<open>tickTimes\<close> lists the times that \<open>Date.now()\<close> returned in the
  timer callbacks of a run.
\<close>

fun runEvents :: "event list \<Rightarrow> Dashboard \<Rightarrow> Dashboard" where
  "runEvents [] s = s"
| "runEvents (e # es) s = runEvents es (step e s)"

fun tickTimes :: "event list \<Rightarrow> int list" where
  "tickTimes [] = []"
| "tickTimes (AlertTick now r0 r1 r2 r3 # es) = now # tickTimes es"
| "tickTimes (e # es) = tickTimes es"

text \<open>The number of right-hand panels that are shown.\<close>

definition panelsShown :: "Dashboard \<Rightarrow> nat" where
  "panelsShown s =
     (if showServersPanel s then 1 else 0) + (if showAlertsPanel s then 1 else 0)
     + (if showUsersPanel s then 1 else 0) + (if showReportsPanel s then 1 else 0)"

text \<open>
  The two groups of visibility state: the four right-hand panels (servers, alerts, users,
  reports), and the flags outside that group (sidebar, notifications, settings, expanded
  widget).
\<close>

definition panelFlags :: "Dashboard \<Rightarrow> bool \<times> bool \<times> bool \<times> bool" where
  "panelFlags s = (showServersPanel s, showAlertsPanel s, showUsersPanel s, showReportsPanel s)"

definition otherFlags :: "Dashboard \<Rightarrow> bool \<times> bool \<times> bool \<times> string option" where
  "otherFlags s = (showSidebar s, showNotifications s, showSettings s, expandedWidget s)"

section \<open>Threshold evaluator: results\<close>

text \<open>The colour and the class each determine the classification.\<close>

lemma status_color_inj: "status_color a = status_color b \<Longrightarrow> a = b"
  by (cases a; cases b) simp_all

lemma status_class_inj: "status_class a = status_class b \<Longrightarrow> a = b"
  by (cases a; cases b) simp_all

text \<open>
  Claim C1. For every value, warning threshold and critical threshold, both companion
  functions of the source return the colour and the class of the classification
  "Critical when v >= c, otherwise Warning when v >= w, otherwise Normal"; the Critical
  check is made first, so a value equal to the critical threshold is Critical whatever
  the warning threshold is.
\<close>

theorem C1_status_refines_classify:
  "getStatusColor v w c = status_color (classify_spec v w c)
   \<and> getStatusClass v w c = status_class (classify_spec v w c)
   \<and> getStatusColor c w c = status_color Critical
   \<and> getStatusClass c w c = status_class Critical"
  by (simp add: getStatusColor_def getStatusClass_def classify_spec_def)

text \<open>
  The status text of the cards tests the warning threshold first, the colour and class
  functions test the critical threshold first. For a value below the warning threshold
  the text is always Normal, while the colour and the class are those of Normal exactly
  when the value is also below the critical threshold, and those of Critical otherwise.
  The two agree whenever the warning threshold is at most the critical one.
\<close>

lemma statusLabel_below_warning: "v < w \<Longrightarrow> statusLabel v w c = status_name Normal"
  by (simp add: statusLabel_def)

lemma critical_first_below_warning:
  "v < w \<Longrightarrow> c \<le> v \<Longrightarrow>
   getStatusColor v w c = status_color Critical \<and> getStatusClass v w c = status_class Critical"
  by (simp add: getStatusColor_def getStatusClass_def)

lemma below_warning_normal_iff:
  "v < w \<Longrightarrow>
   (getStatusColor v w c = status_color Normal \<longleftrightarrow> v < c)
   \<and> (getStatusClass v w c = status_class Normal \<longleftrightarrow> v < c)"
  by (auto simp add: getStatusColor_def getStatusClass_def)

lemma statusLabel_ordered:
  "w \<le> c \<Longrightarrow> statusLabel v w c = status_name (classify_spec v w c)"
  by (auto simp add: statusLabel_def classify_spec_def)

text \<open>
  Claim C5 says that every value below the warning threshold is classified Normal,
  whatever the critical threshold is. With the thresholds set to warning 10 and critical 3,
  the value 5 is below the warning threshold, yet \<open>getStatusColor\<close> and \<open>getStatusClass\<close>
  return the red colour and class of Critical; the status text that the same card prints
  in that colour is Normal.
\<close>

theorem C5_failing_input:
  "(5::real) < 10
   \<and> getStatusColor 5 10 3 = ''rgb(239, 68, 68)''
   \<and> getStatusClass 5 10 3 = ''bg-red-500''
   \<and> getStatusColor 5 10 3 = status_color Critical
   \<and> getStatusClass 5 10 3 = status_class Critical
   \<and> getStatusColor 5 10 3 \<noteq> status_color Normal
   \<and> getStatusClass 5 10 3 \<noteq> status_class Normal
   \<and> statusLabel 5 10 3 = ''Normal''"
  by (simp add: getStatusColor_def getStatusClass_def statusLabel_def)

section \<open>Metric series generator: results\<close>

text \<open>
  A draw of \<open>getRandomValue\<close> lies between its bounds; the loop is unfolded one pass
  at a time; an invariant of the loop that every pass preserves holds of its result.
\<close>

lemma getRandomValue_range:
  assumes "0 \<le> r" "r < 1" "lo \<le> hi"
  shows "lo \<le> getRandomValue lo hi r \<and> getRandomValue lo hi r \<le> hi"
proof -
  let ?n = "real_of_int (hi - lo + 1)"
  have n: "1 \<le> ?n" using assms(3) by simp
  have "0 \<le> r * ?n" using assms(1) n by simp
  then have lower: "0 \<le> \<lfloor>r * ?n\<rfloor>" by simp
  have "r * ?n < ?n" using assms(2) n by simp
  then have "\<lfloor>r * ?n\<rfloor> < hi - lo + 1" by (subst floor_less_iff)
  with lower show ?thesis by (simp add: getRandomValue_def)
qed

lemma fst_loopBody:
  "fst (loopBody points interval now spikePoint rnd i k b) =
     (let fluctuation = getRandomValue (- 5) 5 (rnd k);
          cpuSpike = (if i = spikePoint then getRandomValue 20 40 (rnd (k + 1)) else 0);
          memorySpike = (if i = spikePoint then getRandomValue 15 30 (rnd (k + 2)) else 0);
          k2 = (if i = spikePoint then k + 3 else k + 1)
      in \<lparr> timestamp = now - (points - i - 1) * interval,
                cpu = min 100 (max 0 (baseCpu b + fluctuation + cpuSpike)),
                memory = min 100 (max 0 (baseMemory b + fluctuation + memorySpike)),
                disk = min 100 (max 0 (baseDisk b + getRandomValue (- 2) 2 (rnd k2))),
                temperature = min 50 (max 15 (baseTemp b + getRandomValue (- 3) 3 (rnd (k2 + 1)))),
                network = min 100 (max 0 (baseNetwork b + getRandomValue (- 10) 10 (rnd (k2 + 2)))),
                errors = max 0 (baseErrors b + getRandomValue (- 2) 3 (rnd (k2 + 3))),
                users = max 0 (baseUsers b + getRandomValue (- 20) 20 (rnd (k2 + 4))),
                responseTime = max 50 (baseResponseTime b + getRandomValue (- 50) 50 (rnd (k2 + 5))) \<rparr>)"
  by (simp add: loopBody_def Let_def)

lemma loopBody_timestamp:
  "timestamp (fst (loopBody points interval now sp rnd i k b)) = now - (points - i - 1) * interval"
  by (simp add: fst_loopBody Let_def)

lemma loopBody_clamped:
  "0 \<le> cpu (fst (loopBody points interval now sp rnd i k b))"
  "cpu (fst (loopBody points interval now sp rnd i k b)) \<le> 100"
  "0 \<le> memory (fst (loopBody points interval now sp rnd i k b))"
  "memory (fst (loopBody points interval now sp rnd i k b)) \<le> 100"
  "0 \<le> disk (fst (loopBody points interval now sp rnd i k b))"
  "disk (fst (loopBody points interval now sp rnd i k b)) \<le> 100"
  "0 \<le> network (fst (loopBody points interval now sp rnd i k b))"
  "network (fst (loopBody points interval now sp rnd i k b)) \<le> 100"
  "15 \<le> temperature (fst (loopBody points interval now sp rnd i k b))"
  "temperature (fst (loopBody points interval now sp rnd i k b)) \<le> 50"
  "0 \<le> errors (fst (loopBody points interval now sp rnd i k b))"
  "0 \<le> users (fst (loopBody points interval now sp rnd i k b))"
  "50 \<le> responseTime (fst (loopBody points interval now sp rnd i k b))"
  by (simp_all add: fst_loopBody Let_def)

lemma generateLoop_step:
  "i < points \<Longrightarrow>
   generateLoop points interval now sp rnd i k b data =
   generateLoop points interval now sp rnd (i + 1)
     (snd (snd (loopBody points interval now sp rnd i k b)))
     (fst (snd (loopBody points interval now sp rnd i k b)))
     (data @ [fst (loopBody points interval now sp rnd i k b)])"
  by (subst generateLoop.simps) (simp add: case_prod_beta)

lemma generateLoop_done:
  "\<not> i < points \<Longrightarrow> generateLoop points interval now sp rnd i k b data = data"
  by (subst generateLoop.simps) simp


lemma generateLoop_invariant:
  assumes init: "I i b data"
    and pres: "\<And>i k b data. i < points \<Longrightarrow> I i b data \<Longrightarrow>
                 I (i + 1) (fst (snd (loopBody points interval now sp rnd i k b)))
                   (data @ [fst (loopBody points interval now sp rnd i k b)])"
  shows "\<exists>b'. I (max i points) b' (generateLoop points interval now sp rnd i k b data)"
  using init
proof (induction "nat (points - i)" arbitrary: i k b data)
  case 0
  then have "\<not> i < points" by simp
  with 0 show ?case by (auto simp add: generateLoop_done max_def)
next
  case (Suc n)
  then have lt: "i < points" by simp
  let ?s = "fst (loopBody points interval now sp rnd i k b)"
  let ?b = "fst (snd (loopBody points interval now sp rnd i k b))"
  let ?k = "snd (snd (loopBody points interval now sp rnd i k b))"
  have "n = nat (points - (i + 1))" using Suc.hyps(2) by simp
  moreover have "I (i + 1) ?b (data @ [?s])" using pres [OF lt Suc.prems] .
  ultimately have "\<exists>b'. I (max (i + 1) points) b'
      (generateLoop points interval now sp rnd (i + 1) ?k ?b (data @ [?s]))"
    by (rule Suc.hyps(1))
  moreover have "max (i + 1) points = max i points" using lt by simp
  ultimately show ?case by (simp add: generateLoop_step [OF lt])
qed

lemma generateLoop_all:
  assumes body: "\<And>i k b. P (fst (loopBody points interval now sp rnd i k b))"
    and data: "\<forall>s\<in>set data. P s"
  shows "\<forall>s\<in>set (generateLoop points interval now sp rnd i k b data). P s"
proof -
  have "\<exists>b'::Bases. (\<lambda>i b d. \<forall>s\<in>set d. P s) (max i points) b'
          (generateLoop points interval now sp rnd i k b data)"
    by (rule generateLoop_invariant) (use body data in auto)
  then show ?thesis by simp
qed

lemma generateLoop_timestamps:
  assumes "i \<le> points"
  shows "map timestamp (generateLoop points interval now sp rnd i k b data) =
         map timestamp data @ map (\<lambda>j. now - (points - j - 1) * interval) [i..points - 1]"
proof -
  let ?f = "\<lambda>j. now - (points - j - 1) * interval"
  let ?I = "\<lambda>j (b'::Bases) d. i \<le> j \<and> map timestamp d = map timestamp data @ map ?f [i..j - 1]"
  have "\<exists>b'. ?I (max i points) b' (generateLoop points interval now sp rnd i k b data)"
  proof (rule generateLoop_invariant)
    show "?I i b data" by simp
  next
    fix j k b and d :: "ServerMetric list"
    assume "j < points" and I: "?I j b d"
    then have "[i..j + 1 - 1] = [i..j - 1] @ [j]"
      using upto_rec2 [of i j] by simp
    with I show "?I (j + 1) (fst (snd (loopBody points interval now sp rnd j k b)))
                   (d @ [fst (loopBody points interval now sp rnd j k b)])"
      by (simp add: loopBody_timestamp)
  qed
  moreover have "max i points = points" using assms by simp
  ultimately show ?thesis by simp
qed

lemma generateMockData_timestamps:
  assumes "rangePolicy tr = (points, interval)"
  shows "map timestamp (generateMockData tr now rnd) =
         map (\<lambda>j. now - (points - j - 1) * interval) [0..points - 1]"
proof -
  have "0 \<le> points" using assms by (auto simp add: rangePolicy_def split: if_splits)
  then show ?thesis
    using assms by (simp add: generateMockData_def Let_def generateLoop_timestamps)
qed

lemma generateMockData_all:
  assumes "\<And>points interval sp i k b. P (fst (loopBody points interval now sp rnd i k b))"
  shows "\<forall>s\<in>set (generateMockData tr now rnd). P s"
proof -
  obtain points interval where rp: "rangePolicy tr = (points, interval)"
    by (cases "rangePolicy tr") auto
  show ?thesis
    unfolding generateMockData_def Let_def rp prod.case
    by (rule generateLoop_all) (simp_all add: assms)
qed

lemma generateMockData_length:
  "int (length (generateMockData tr now rnd)) = fst (rangePolicy tr)"
proof -
  obtain points interval where rp: "rangePolicy tr = (points, interval)"
    by (cases "rangePolicy tr") auto
  have "0 \<le> points" using rp by (auto simp add: rangePolicy_def split: if_splits)
  moreover have "length (map timestamp (generateMockData tr now rnd)) = nat points"
    by (simp only: generateMockData_timestamps [OF rp] length_map length_upto)
  ultimately show ?thesis using rp by simp
qed

lemma generateMockData_nth_timestamp:
  assumes rp: "rangePolicy tr = (points, interval)" and j: "int j < points"
  shows "timestamp (generateMockData tr now rnd ! j) = now - (points - int j - 1) * interval"
proof -
  have len: "j < length (generateMockData tr now rnd)"
    using generateMockData_length [of tr now rnd] rp j by simp
  have "timestamp (generateMockData tr now rnd ! j) = map timestamp (generateMockData tr now rnd) ! j"
    using len by simp
  also have "\<dots> = map (\<lambda>j. now - (points - j - 1) * interval) [0..points - 1] ! j"
    by (simp only: generateMockData_timestamps [OF rp])
  also have "\<dots> = now - (points - int j - 1) * interval"
    using j by simp
  finally show ?thesis .
qed

lemma generateMockData_shape:
  assumes rp: "rangePolicy tr = (int n, d)" and n: "0 < n"
  shows "evenlySpacedUntil n d now (generateMockData tr now rnd)"
proof -
  let ?xs = "generateMockData tr now rnd"
  have len: "length ?xs = n" using generateMockData_length [of tr now rnd] rp by simp
  then have ne: "?xs \<noteq> []" using n by auto
  have "timestamp (last ?xs) = timestamp (?xs ! (n - 1))"
    using ne len by (simp add: last_conv_nth)
  also have "\<dots> = now"
    using generateMockData_nth_timestamp [OF rp, of "n - 1" now rnd] n by simp
  finally have lst: "timestamp (last ?xs) = now" .
  have "timestamp (?xs ! Suc j) = timestamp (?xs ! j) + d" if "Suc j < length ?xs" for j
  proof -
    have "int (Suc j) < int n" "int j < int n" using that len by simp_all
    then show ?thesis
      using generateMockData_nth_timestamp [OF rp, of "Suc j" now rnd]
            generateMockData_nth_timestamp [OF rp, of j now rnd]
      by (simp add: algebra_simps)
  qed
  with len ne lst show ?thesis by (simp add: evenlySpacedUntil_def)
qed

lemma generateMockData_fallback:
  assumes "tr \<notin> {''1h'', ''24h'', ''7d'', ''30d''}"
  shows "generateMockData tr now rnd = generateMockData ''24h'' now rnd"
  using assms by (simp add: generateMockData_def rangePolicy_def)

text \<open>
  Claim C3. \<open>generateMockData("24h")\<close> returns exactly 24 samples, each one hour after
  the one before, the last one at the current time; \<open>"1h"\<close> gives 60 samples one minute
  apart, \<open>"7d"\<close> 7 samples one day apart, \<open>"30d"\<close> 30 samples one day apart; any other
  key gives what \<open>"24h"\<close> gives (from the same random draws, the same series).
\<close>

theorem C3_generate_shape:
  "evenlySpacedUntil 24 (60 * 60 * 1000) now (generateMockData ''24h'' now rnd)
   \<and> evenlySpacedUntil 60 (60 * 1000) now (generateMockData ''1h'' now rnd)
   \<and> evenlySpacedUntil 7 (24 * 60 * 60 * 1000) now (generateMockData ''7d'' now rnd)
   \<and> evenlySpacedUntil 30 (24 * 60 * 60 * 1000) now (generateMockData ''30d'' now rnd)
   \<and> (tr \<notin> {''1h'', ''24h'', ''7d'', ''30d''} \<longrightarrow>
        generateMockData tr now rnd = generateMockData ''24h'' now rnd
        \<and> evenlySpacedUntil 24 (60 * 60 * 1000) now (generateMockData tr now rnd))"
proof -
  have a: "evenlySpacedUntil 24 (60 * 60 * 1000) now (generateMockData ''24h'' now rnd)"
    by (rule generateMockData_shape) (simp_all add: rangePolicy_def)
  have b: "evenlySpacedUntil 60 (60 * 1000) now (generateMockData ''1h'' now rnd)"
    by (rule generateMockData_shape) (simp_all add: rangePolicy_def)
  have c: "evenlySpacedUntil 7 (24 * 60 * 60 * 1000) now (generateMockData ''7d'' now rnd)"
    by (rule generateMockData_shape) (simp_all add: rangePolicy_def)
  have d: "evenlySpacedUntil 30 (24 * 60 * 60 * 1000) now (generateMockData ''30d'' now rnd)"
    by (rule generateMockData_shape) (simp_all add: rangePolicy_def)
  from a b c d show ?thesis
    using generateMockData_fallback [of tr now rnd] by simp
qed

text \<open>
  The unrecognised key \<open>"2h"\<close>, at time 0 with every draw equal to one half.
\<close>

theorem C3_generate_shape_witness:
  "''2h'' \<notin> {''1h'', ''24h'', ''7d'', ''30d''}
   \<and> generateMockData ''2h'' 0 (\<lambda>_. 1 / 2) = generateMockData ''24h'' 0 (\<lambda>_. 1 / 2)
   \<and> length (generateMockData ''2h'' 0 (\<lambda>_. 1 / 2)) = 24
   \<and> timestamp (last (generateMockData ''2h'' 0 (\<lambda>_. 1 / 2))) = 0
   \<and> timestamp (generateMockData ''2h'' 0 (\<lambda>_. 1 / 2) ! 1)
       = timestamp (generateMockData ''2h'' 0 (\<lambda>_. 1 / 2) ! 0) + 3600000"
  using C3_generate_shape [of 0 "\<lambda>_. 1 / 2" "''2h''"]
  by (simp add: evenlySpacedUntil_def)

text \<open>
  Claim C4. Whatever the range key, the time and the random draws (even draws outside
  the unit interval), every sample has cpu, memory, disk and network between 0 and 100 and
  temperature between 15 and 50. The same holds of the loop itself for any number of
  points, any spike point and any base values, so neither the number of samples nor the
  accumulated drift matters.
\<close>

theorem C4_samples_clamped:
  "(\<forall>s\<in>set (generateMockData tr now rnd).
      0 \<le> cpu s \<and> cpu s \<le> 100 \<and> 0 \<le> memory s \<and> memory s \<le> 100
      \<and> 0 \<le> disk s \<and> disk s \<le> 100 \<and> 0 \<le> network s \<and> network s \<le> 100
      \<and> 15 \<le> temperature s \<and> temperature s \<le> 50)
   \<and> (\<forall>s\<in>set (generateLoop points interval now spikePoint rnd i k b []).
      0 \<le> cpu s \<and> cpu s \<le> 100 \<and> 0 \<le> memory s \<and> memory s \<le> 100
      \<and> 0 \<le> disk s \<and> disk s \<le> 100 \<and> 0 \<le> network s \<and> network s \<le> 100
      \<and> 15 \<le> temperature s \<and> temperature s \<le> 50)"
proof
  show "\<forall>s\<in>set (generateMockData tr now rnd).
      0 \<le> cpu s \<and> cpu s \<le> 100 \<and> 0 \<le> memory s \<and> memory s \<le> 100
      \<and> 0 \<le> disk s \<and> disk s \<le> 100 \<and> 0 \<le> network s \<and> network s \<le> 100
      \<and> 15 \<le> temperature s \<and> temperature s \<le> 50"
    by (rule generateMockData_all) (simp only: loopBody_clamped simp_thms)
  show "\<forall>s\<in>set (generateLoop points interval now spikePoint rnd i k b []).
      0 \<le> cpu s \<and> cpu s \<le> 100 \<and> 0 \<le> memory s \<and> memory s \<le> 100
      \<and> 0 \<le> disk s \<and> disk s \<le> 100 \<and> 0 \<le> network s \<and> network s \<le> 100
      \<and> 15 \<le> temperature s \<and> temperature s \<le> 50"
    by (rule generateLoop_all) (simp_all only: loopBody_clamped simp_thms set_simps ball_empty)
qed

lemma generateMockData_nonempty: "generateMockData tr now rnd \<noteq> []"
proof -
  have "0 < fst (rangePolicy tr)" by (simp add: rangePolicy_def)
  then show ?thesis using generateMockData_length [of tr now rnd] by auto
qed

text \<open>
  The first sample of the seven-day series at time 0 with every draw equal to 0.
\<close>

theorem C4_samples_clamped_witness:
  "generateMockData ''7d'' 0 (\<lambda>_. 0) \<noteq> []
   \<and> 0 \<le> cpu (hd (generateMockData ''7d'' 0 (\<lambda>_. 0)))
   \<and> cpu (hd (generateMockData ''7d'' 0 (\<lambda>_. 0))) \<le> 100
   \<and> 15 \<le> temperature (hd (generateMockData ''7d'' 0 (\<lambda>_. 0)))
   \<and> temperature (hd (generateMockData ''7d'' 0 (\<lambda>_. 0))) \<le> 50"
proof -
  have ne: "generateMockData ''7d'' 0 (\<lambda>_. 0) \<noteq> []" by (rule generateMockData_nonempty)
  then have "hd (generateMockData ''7d'' 0 (\<lambda>_. 0)) \<in> set (generateMockData ''7d'' 0 (\<lambda>_. 0))"
    by (rule hd_in_set)
  with ne show ?thesis
    using C4_samples_clamped [of "''7d''" 0 "\<lambda>_. 0"] by blast
qed

text \<open>
  The error count is not capped, but its base value starts at 10 at most and grows by
  1 at most in each pass, and the draw added to it is 3 at most.
\<close>

lemma loopBody_errors:
  "errors (fst (loopBody points interval now sp rnd i k b)) =
     max 0 (baseErrors b + getRandomValue (- 2) 3 (rnd ((if i = sp then k + 3 else k + 1) + 3)))"
  by (simp add: fst_loopBody Let_def)

lemma loopBody_baseErrors:
  "baseErrors (fst (snd (loopBody points interval now sp rnd i k b))) =
     baseErrors b + getRandomValue (- 1) 1 (rnd ((if i = sp then k + 3 else k + 1) + 11))"
  by (simp add: loopBody_def Let_def)

lemma valid_rng_range:
  "valid_rng rnd \<Longrightarrow> lo \<le> hi \<Longrightarrow>
   lo \<le> getRandomValue lo hi (rnd n) \<and> getRandomValue lo hi (rnd n) \<le> hi"
  by (simp add: valid_rng_def getRandomValue_range)

lemma generateLoop_errors_le:
  assumes v: "valid_rng rnd" and i: "0 \<le> i" and b: "baseErrors b \<le> 10 + i"
    and d: "\<forall>s\<in>set data. errors s \<le> points + 12"
  shows "\<forall>s\<in>set (generateLoop points interval now sp rnd i k b data). errors s \<le> points + 12"
proof -
  let ?I = "\<lambda>j (b'::Bases) (d::ServerMetric list). 0 \<le> j \<and> baseErrors b' \<le> 10 + j
              \<and> (\<forall>s\<in>set d. errors s \<le> points + 12)"
  have "\<exists>b'. ?I (max i points) b' (generateLoop points interval now sp rnd i k b data)"
  proof (rule generateLoop_invariant [where I = ?I])
    show "?I i b data" using i b d by simp
  next
    fix j :: int and k :: nat and b :: Bases and d :: "ServerMetric list"
    assume lt: "j < points" and I: "?I j b d"
    let ?k2 = "if j = sp then k + 3 else k + 1"
    have e: "getRandomValue (- 2) 3 (rnd (?k2 + 3)) \<le> 3"
      using valid_rng_range [OF v, of "- 2" 3 "?k2 + 3"] by simp
    have u: "getRandomValue (- 1) 1 (rnd (?k2 + 11)) \<le> 1"
      using valid_rng_range [OF v, of "- 1" 1 "?k2 + 11"] by simp
    have "errors (fst (loopBody points interval now sp rnd j k b)) \<le> points + 12"
      unfolding loopBody_errors using e I lt by simp
    moreover have "baseErrors (fst (snd (loopBody points interval now sp rnd j k b))) \<le> 10 + (j + 1)"
      unfolding loopBody_baseErrors using u I by simp
    ultimately show "?I (j + 1) (fst (snd (loopBody points interval now sp rnd j k b)))
                   (d @ [fst (loopBody points interval now sp rnd j k b)])"
      using I by simp
  qed
  then show ?thesis by blast
qed

lemma generateMockData_errors_le:
  assumes v: "valid_rng rnd"
  shows "\<forall>s\<in>set (generateMockData tr now rnd). errors s \<le> fst (rangePolicy tr) + 12"
proof -
  obtain points interval where rp: "rangePolicy tr = (points, interval)"
    by (cases "rangePolicy tr") auto
  have "getRandomValue 0 10 (rnd 5) \<le> 10"
    using valid_rng_range [OF v, of 0 10 5] by simp
  then show ?thesis
    unfolding generateMockData_def Let_def rp prod.case fst_conv
    by (intro generateLoop_errors_le [OF v]) simp_all
qed

lemma rangePolicy_le: "fst (rangePolicy tr) \<le> 60" "3 < fst (rangePolicy tr)"
  by (simp_all add: rangePolicy_def)

lemma valid_rng_const: "valid_rng (\<lambda>_. 99 / 100)"
  by (simp add: valid_rng_def)

lemma generateLoop_errors_reach:
  assumes p: "3 < points" and i: "i \<le> 3" and b: "baseErrors b = 10 + i"
  shows "\<exists>s\<in>set (generateLoop points interval now sp (\<lambda>_. 99 / 100) i k b data). errors s = 16"
proof -
  let ?I = "\<lambda>j (b'::Bases) (d::ServerMetric list). (j \<le> 3 \<and> baseErrors b' = 10 + j)
              \<or> (\<exists>s\<in>set d. errors s = 16)"
  have "\<exists>b'. ?I (max i points) b' (generateLoop points interval now sp (\<lambda>_. 99 / 100) i k b data)"
  proof (rule generateLoop_invariant [where I = ?I])
    show "?I i b data" using i b by simp
  next
    fix j :: int and k :: nat and b :: Bases and d :: "ServerMetric list"
    assume lt: "j < points" and I: "?I j b d"
    show "?I (j + 1) (fst (snd (loopBody points interval now sp (\<lambda>_. 99 / 100) j k b)))
                   (d @ [fst (loopBody points interval now sp (\<lambda>_. 99 / 100) j k b)])"
      using I by (auto simp add: loopBody_errors loopBody_baseErrors getRandomValue_def)
  qed
  moreover have "\<not> max i points \<le> 3" using p by simp
  ultimately show ?thesis by blast
qed

lemma generateMockData_errors_reach:
  "\<exists>s\<in>set (generateMockData tr now (\<lambda>_. 99 / 100)). errors s = 16"
proof -
  obtain points interval where rp: "rangePolicy tr = (points, interval)"
    by (cases "rangePolicy tr") auto
  have p: "3 < points" using rangePolicy_le(2) [of tr] rp by simp
  show ?thesis
    unfolding generateMockData_def Let_def rp prod.case
    by (rule generateLoop_errors_reach [OF p]) (simp_all add: getRandomValue_def)
qed

lemma loopBody_users:
  "users (fst (loopBody points interval now sp rnd i k b)) =
     max 0 (baseUsers b + getRandomValue (- 20) 20 (rnd ((if i = sp then k + 3 else k + 1) + 4)))"
  by (simp add: fst_loopBody Let_def)

lemma loopBody_responseTime:
  "responseTime (fst (loopBody points interval now sp rnd i k b)) =
     max 50 (baseResponseTime b + getRandomValue (- 50) 50 (rnd ((if i = sp then k + 3 else k + 1) + 5)))"
  by (simp add: fst_loopBody Let_def)

lemma loopBody_follows_base:
  assumes v: "valid_rng rnd"
  shows "baseErrors b - 2 \<le> errors (fst (loopBody points interval now sp rnd i k b))
         \<and> baseUsers b - 20 \<le> users (fst (loopBody points interval now sp rnd i k b))
         \<and> baseResponseTime b - 50 \<le> responseTime (fst (loopBody points interval now sp rnd i k b))"
proof (intro conjI)
  let ?k2 = "if i = sp then k + 3 else k + 1"
  have "- 2 \<le> getRandomValue (- 2) 3 (rnd (?k2 + 3))"
    using valid_rng_range [OF v, of "- 2" 3 "?k2 + 3"] by simp
  then show "baseErrors b - 2 \<le> errors (fst (loopBody points interval now sp rnd i k b))"
    unfolding loopBody_errors by linarith
  have "- 20 \<le> getRandomValue (- 20) 20 (rnd (?k2 + 4))"
    using valid_rng_range [OF v, of "- 20" 20 "?k2 + 4"] by simp
  then show "baseUsers b - 20 \<le> users (fst (loopBody points interval now sp rnd i k b))"
    unfolding loopBody_users by linarith
  have "- 50 \<le> getRandomValue (- 50) 50 (rnd (?k2 + 5))"
    using valid_rng_range [OF v, of "- 50" 50 "?k2 + 5"] by simp
  then show "baseResponseTime b - 50 \<le> responseTime (fst (loopBody points interval now sp rnd i k b))"
    unfolding loopBody_responseTime by linarith
qed

text \<open>
  Claim C10 as stated fails in its last part: the error count does not exceed every
  fixed threshold. With draws in the unit interval no sample of any series has more than
  72 errors, since a series has 60 points at most.
\<close>

theorem C10_counterexample:
  "\<not> (\<exists>tr now rnd. valid_rng rnd \<and> (\<exists>s\<in>set (generateMockData tr now rnd). 72 < errors s))"
proof
  assume "\<exists>tr now rnd. valid_rng rnd \<and> (\<exists>s\<in>set (generateMockData tr now rnd). 72 < errors s)"
  then obtain tr now rnd s where v: "valid_rng rnd"
    and s: "s \<in> set (generateMockData tr now rnd)" and e: "72 < errors s" by blast
  have "errors s \<le> fst (rangePolicy tr) + 12" using generateMockData_errors_le [OF v] s by blast
  with rangePolicy_le(1) [of tr] e show False by simp
qed

text \<open>
  Claim C10, amended. For every range key and all draws, every sample has errors and
  users at least 0 and response time at least 50. These fields are clamped from below
  only: each one follows its base value, however large, so for some draws the error count
  exceeds the default critical value 15. It stays bounded all the same: with draws in the
  unit interval it is at most the number of points plus 12.
\<close>

theorem C10_lower_clamps:
  "(\<forall>s\<in>set (generateMockData tr now rnd). 0 \<le> errors s \<and> 0 \<le> users s \<and> 50 \<le> responseTime s)
   \<and> (\<exists>rnd'. valid_rng rnd' \<and> (\<exists>s\<in>set (generateMockData tr now rnd'). 15 < errors s))
   \<and> (valid_rng rnd \<longrightarrow>
        baseErrors b - 2 \<le> errors (fst (loopBody points interval now sp rnd i k b))
        \<and> baseUsers b - 20 \<le> users (fst (loopBody points interval now sp rnd i k b))
        \<and> baseResponseTime b - 50 \<le> responseTime (fst (loopBody points interval now sp rnd i k b)))
   \<and> (valid_rng rnd \<longrightarrow>
        (\<forall>s\<in>set (generateMockData tr now rnd). errors s \<le> fst (rangePolicy tr) + 12))"
proof (intro conjI)
  show "\<forall>s\<in>set (generateMockData tr now rnd). 0 \<le> errors s \<and> 0 \<le> users s \<and> 50 \<le> responseTime s"
    by (rule generateMockData_all) (simp only: loopBody_clamped simp_thms)
  show "\<exists>rnd'. valid_rng rnd' \<and> (\<exists>s\<in>set (generateMockData tr now rnd'). 15 < errors s)"
    using valid_rng_const generateMockData_errors_reach [of tr now] by force
  show "valid_rng rnd \<longrightarrow>
        baseErrors b - 2 \<le> errors (fst (loopBody points interval now sp rnd i k b))
        \<and> baseUsers b - 20 \<le> users (fst (loopBody points interval now sp rnd i k b))
        \<and> baseResponseTime b - 50 \<le> responseTime (fst (loopBody points interval now sp rnd i k b))"
    using loopBody_follows_base [of rnd b points interval now sp i k] by blast
  show "valid_rng rnd \<longrightarrow>
        (\<forall>s\<in>set (generateMockData tr now rnd). errors s \<le> fst (rangePolicy tr) + 12)"
    using generateMockData_errors_le [of rnd tr now] by blast
qed

text \<open>
  The last sample of the seven-day series at time 0 with every draw equal to 99/100.
\<close>

theorem C10_lower_clamps_witness:
  "valid_rng (\<lambda>_. 99 / 100)
   \<and> generateMockData ''7d'' 0 (\<lambda>_. 99 / 100) \<noteq> []
   \<and> 0 \<le> errors (last (generateMockData ''7d'' 0 (\<lambda>_. 99 / 100)))
   \<and> errors (last (generateMockData ''7d'' 0 (\<lambda>_. 99 / 100))) \<le> 19
   \<and> 0 \<le> users (last (generateMockData ''7d'' 0 (\<lambda>_. 99 / 100)))
   \<and> 50 \<le> responseTime (last (generateMockData ''7d'' 0 (\<lambda>_. 99 / 100)))"
proof -
  have v: "valid_rng (\<lambda>_. 99 / 100)" by (simp add: valid_rng_def)
  have ne: "generateMockData ''7d'' 0 (\<lambda>_. 99 / 100) \<noteq> []" by (rule generateMockData_nonempty)
  then have m: "last (generateMockData ''7d'' 0 (\<lambda>_. 99 / 100))
      \<in> set (generateMockData ''7d'' 0 (\<lambda>_. 99 / 100))"
    by (rule last_in_set)
  have r: "fst (rangePolicy ''7d'') + 12 = 19" by (simp add: rangePolicy_def)
  show ?thesis
    using C10_lower_clamps [of "''7d''" 0 "\<lambda>_. 99 / 100"] v ne m unfolding r by blast
qed

section \<open>Panel coordinator: results\<close>

lemmas toggle_defs =
  toggleDarkMode_def toggleSidebar_def toggleNotifications_def toggleSettings_def
  toggleServersPanel_def toggleAlertsPanel_def toggleUsersPanel_def toggleReportsPanel_def

lemmas setter_defs =
  dismissAlert_def acknowledgeAlert_def updateThreshold_def setTimeRange_def
  setExpandedWidget_def setActiveSidebarItem_def setIsLandingPage_def alertTick_def

lemma panelsShown_toggle:
  assumes "panelsShown s \<le> 1"
  shows "panelsShown (toggleServersPanel s) \<le> 1" and "panelsShown (toggleAlertsPanel s) \<le> 1"
    and "panelsShown (toggleUsersPanel s) \<le> 1" and "panelsShown (toggleReportsPanel s) \<le> 1"
  using assms by (simp_all add: panelsShown_def toggle_defs Let_def split: if_splits)

lemma panelsShown_same:
  "panelsShown (toggleDarkMode s) = panelsShown s"
  "panelsShown (toggleSidebar s) = panelsShown s"
  "panelsShown (toggleNotifications s) = panelsShown s"
  "panelsShown (toggleSettings s) = panelsShown s"
  "panelsShown (dismissAlert i s) = panelsShown s"
  "panelsShown (acknowledgeAlert i s) = panelsShown s"
  "panelsShown (updateThreshold key lvl v s) = panelsShown s"
  "panelsShown (setTimeRange r s) = panelsShown s"
  "panelsShown (setExpandedWidget w s) = panelsShown s"
  "panelsShown (setActiveSidebarItem item s) = panelsShown s"
  "panelsShown (setIsLandingPage f s) = panelsShown s"
  "panelsShown (alertTick now r0 r1 r2 r3 s) = panelsShown s"
  by (simp_all add: panelsShown_def toggle_defs setter_defs Let_def)

lemma panelsShown_handleItemClick:
  assumes "panelsShown s \<le> 1"
  shows "panelsShown (handleItemClick item s) \<le> 1"
proof -
  have h: "panelsShown (setActiveSidebarItem item s) \<le> 1"
    using assms by (simp only: panelsShown_same)
  show ?thesis
    using h panelsShown_toggle [OF h]
    by (auto simp add: handleItemClick_def Let_def panelsShown_same)
qed

lemma panelsShown_step: "panelsShown s \<le> 1 \<Longrightarrow> panelsShown (step e s) \<le> 1"
  by (cases e)
     (simp_all only: step.simps panelsShown_toggle panelsShown_same panelsShown_handleItemClick)

lemma reachable_panelsShown: "reachable s \<Longrightarrow> panelsShown s \<le> 1"
proof (induction rule: reachable.induct)
  case (init now)
  show ?case by (simp add: panelsShown_def initialDashboard_def)
next
  case (next_state s e)
  from next_state.IH show ?case by (rule panelsShown_step)
qed

text \<open>
  Claim C2. In every reachable state at most one of the four right-hand panels is
  shown, and toggling the panel that is shown leaves all four hidden. In any state,
  toggling a hidden panel shows it and hides the three others. The panel toggles leave the
  sidebar, notifications, settings and expanded-widget state as it was, and the toggles of
  those leave the four panel flags as they were.
\<close>

theorem C2_panels_exclusive:
  "(reachable s \<longrightarrow>
      panelsShown s \<le> 1
      \<and> (showServersPanel s \<longrightarrow> panelFlags (toggleServersPanel s) = (False, False, False, False))
      \<and> (showAlertsPanel s \<longrightarrow> panelFlags (toggleAlertsPanel s) = (False, False, False, False))
      \<and> (showUsersPanel s \<longrightarrow> panelFlags (toggleUsersPanel s) = (False, False, False, False))
      \<and> (showReportsPanel s \<longrightarrow> panelFlags (toggleReportsPanel s) = (False, False, False, False)))
   \<and> (\<not> showServersPanel s \<longrightarrow> panelFlags (toggleServersPanel s) = (True, False, False, False))
   \<and> (\<not> showAlertsPanel s \<longrightarrow> panelFlags (toggleAlertsPanel s) = (False, True, False, False))
   \<and> (\<not> showUsersPanel s \<longrightarrow> panelFlags (toggleUsersPanel s) = (False, False, True, False))
   \<and> (\<not> showReportsPanel s \<longrightarrow> panelFlags (toggleReportsPanel s) = (False, False, False, True))
   \<and> otherFlags (toggleServersPanel s) = otherFlags s
   \<and> otherFlags (toggleAlertsPanel s) = otherFlags s
   \<and> otherFlags (toggleUsersPanel s) = otherFlags s
   \<and> otherFlags (toggleReportsPanel s) = otherFlags s
   \<and> panelFlags (toggleSidebar s) = panelFlags s
   \<and> panelFlags (toggleNotifications s) = panelFlags s
   \<and> panelFlags (toggleSettings s) = panelFlags s
   \<and> panelFlags (setExpandedWidget w s) = panelFlags s"
proof -
  have off: "panelFlags (toggleServersPanel s) = (False, False, False, False)"
    if "panelsShown s \<le> 1" "showServersPanel s"
    using that by (simp add: panelsShown_def panelFlags_def toggle_defs split: if_splits)
  have off2: "panelFlags (toggleAlertsPanel s) = (False, False, False, False)"
    if "panelsShown s \<le> 1" "showAlertsPanel s"
    using that by (simp add: panelsShown_def panelFlags_def toggle_defs split: if_splits)
  have off3: "panelFlags (toggleUsersPanel s) = (False, False, False, False)"
    if "panelsShown s \<le> 1" "showUsersPanel s"
    using that by (simp add: panelsShown_def panelFlags_def toggle_defs split: if_splits)
  have off4: "panelFlags (toggleReportsPanel s) = (False, False, False, False)"
    if "panelsShown s \<le> 1" "showReportsPanel s"
    using that by (simp add: panelsShown_def panelFlags_def toggle_defs split: if_splits)
  have rest: "(\<not> showServersPanel s \<longrightarrow> panelFlags (toggleServersPanel s) = (True, False, False, False))
   \<and> (\<not> showAlertsPanel s \<longrightarrow> panelFlags (toggleAlertsPanel s) = (False, True, False, False))
   \<and> (\<not> showUsersPanel s \<longrightarrow> panelFlags (toggleUsersPanel s) = (False, False, True, False))
   \<and> (\<not> showReportsPanel s \<longrightarrow> panelFlags (toggleReportsPanel s) = (False, False, False, True))
   \<and> otherFlags (toggleServersPanel s) = otherFlags s
   \<and> otherFlags (toggleAlertsPanel s) = otherFlags s
   \<and> otherFlags (toggleUsersPanel s) = otherFlags s
   \<and> otherFlags (toggleReportsPanel s) = otherFlags s
   \<and> panelFlags (toggleSidebar s) = panelFlags s
   \<and> panelFlags (toggleNotifications s) = panelFlags s
   \<and> panelFlags (toggleSettings s) = panelFlags s
   \<and> panelFlags (setExpandedWidget w s) = panelFlags s"
    by (simp add: panelFlags_def otherFlags_def toggle_defs setExpandedWidget_def Let_def)
  show ?thesis
    using off off2 off3 off4 rest reachable_panelsShown [of s] by blast
qed

text \<open>
  From the initial state: the servers panel is toggled on, then the alerts panel is
  toggled on (servers goes off), then the alerts panel is toggled again (all off).
\<close>

theorem C2_panels_exclusive_witness:
  "reachable (toggleServersPanel (initialDashboard 0))
   \<and> showServersPanel (toggleServersPanel (initialDashboard 0))
   \<and> \<not> showAlertsPanel (toggleServersPanel (initialDashboard 0))
   \<and> panelFlags (toggleAlertsPanel (toggleServersPanel (initialDashboard 0)))
       = (False, True, False, False)
   \<and> reachable (toggleAlertsPanel (toggleServersPanel (initialDashboard 0)))
   \<and> showAlertsPanel (toggleAlertsPanel (toggleServersPanel (initialDashboard 0)))
   \<and> panelFlags (toggleAlertsPanel (toggleAlertsPanel (toggleServersPanel (initialDashboard 0))))
       = (False, False, False, False)
   \<and> panelsShown (toggleAlertsPanel (toggleServersPanel (initialDashboard 0))) \<le> 1"
proof -
  let ?s1 = "toggleServersPanel (initialDashboard 0)"
  let ?s2 = "toggleAlertsPanel ?s1"
  have r1: "reachable ?s1"
    using reachable.next_state [OF reachable.init, of ToggleServersPanel 0] by simp
  have r2: "reachable ?s2"
    using reachable.next_state [OF r1, of ToggleAlertsPanel] by simp
  have f1: "showServersPanel ?s1" "\<not> showAlertsPanel ?s1"
    by (simp_all add: toggleServersPanel_def initialDashboard_def)
  have f2: "showAlertsPanel ?s2"
    by (simp add: toggleAlertsPanel_def toggleServersPanel_def initialDashboard_def)
  show ?thesis
    using C2_panels_exclusive [of ?s1] C2_panels_exclusive [of ?s2] r1 r2 f1 f2 by blast
qed

section \<open>Alert store: results\<close>

lemma dismiss_ids: "map id_alert (alerts (dismissAlert i s)) = map id_alert (alerts s)"
  by (simp add: dismissAlert_def comp_def if_distrib [of id_alert] cong: if_cong)

lemma acknowledge_ids: "map id_alert (alerts (acknowledgeAlert i s)) = map id_alert (alerts s)"
  by (simp add: acknowledgeAlert_def comp_def if_distrib [of id_alert] cong: if_cong)

lemma step_keeps_ids: "set (map id_alert (alerts s)) \<subseteq> set (map id_alert (alerts (step e s)))"
proof (cases e)
  case (DismissAlert i)
  then show ?thesis by (simp only: step.simps dismiss_ids subset_refl)
next
  case (AcknowledgeAlert i)
  then show ?thesis by (simp only: step.simps acknowledge_ids subset_refl)
next
  case (HandleItemClick item)
  then show ?thesis by (simp add: handleItemClick_def toggle_defs setter_defs Let_def)
next
  case (AlertTick now r0 r1 r2 r3)
  then show ?thesis by (auto simp add: alertTick_def Let_def)
qed (simp_all add: toggle_defs setter_defs Let_def)

lemma dismissed_members:
  assumes "b \<in> set (alerts (dismissAlert i s))"
  shows "id_alert b = i \<longrightarrow> dismissed b"
proof -
  let ?f = "\<lambda>a. if id_alert a = i then a\<lparr>dismissed := True\<rparr> else a"
  from assms have "b \<in> ?f ` set (alerts s)" by (simp add: dismissAlert_def)
  then obtain a where b: "b = ?f a" by (rule imageE)
  show ?thesis unfolding b by (cases "id_alert a = i") simp_all
qed

lemma active_after_dismiss:
  assumes "b \<in> set (activeAlerts (dismissAlert i s))"
  shows "id_alert b \<noteq> i"
proof -
  from assms have "b \<in> set (alerts (dismissAlert i s))" and "\<not> dismissed b"
    by (simp_all add: activeAlerts_def)
  then show ?thesis using dismissed_members [of b i s] by blast
qed

text \<open>
  Claim C6. Dismissing an alert that is in the collection leaves that alert in the
  collection, its \<open>dismissed\<close> flag set and its other fields as they were; every alert
  with that identifier is then dismissed, so none is in the filtered view \<open>activeAlerts\<close>;
  the identifiers of the collection, their number and their order, are unchanged; and no
  event of the dashboard ever removes an identifier from the collection.
\<close>

theorem C6_dismiss_keeps_alert:
  assumes "a \<in> set (alerts s)" and "id_alert a = i"
  shows "a\<lparr>dismissed := True\<rparr> \<in> set (alerts (dismissAlert i s))
         \<and> (\<forall>b\<in>set (alerts (dismissAlert i s)). id_alert b = i \<longrightarrow> dismissed b)
         \<and> (\<forall>b\<in>set (activeAlerts (dismissAlert i s)). id_alert b \<noteq> i)
         \<and> map id_alert (alerts (dismissAlert i s)) = map id_alert (alerts s)
         \<and> set (map id_alert (alerts s)) \<subseteq> set (map id_alert (alerts (step e s)))"
proof (intro conjI ballI)
  let ?f = "\<lambda>a. if id_alert a = i then a\<lparr>dismissed := True\<rparr> else a"
  have "?f a \<in> ?f ` set (alerts s)" using assms(1) by (rule imageI)
  moreover have "?f a = a\<lparr>dismissed := True\<rparr>" using assms(2) by simp
  ultimately show "a\<lparr>dismissed := True\<rparr> \<in> set (alerts (dismissAlert i s))"
    by (simp add: dismissAlert_def)
  show "id_alert b = i \<longrightarrow> dismissed b" if "b \<in> set (alerts (dismissAlert i s))" for b
    using that by (rule dismissed_members)
  show "id_alert b \<noteq> i" if "b \<in> set (activeAlerts (dismissAlert i s))" for b
    using that by (rule active_after_dismiss)
  show "map id_alert (alerts (dismissAlert i s)) = map id_alert (alerts s)"
    by (rule dismiss_ids)
  show "set (map id_alert (alerts s)) \<subseteq> set (map id_alert (alerts (step e s)))"
    by (rule step_keeps_ids)
qed

text \<open>
  Dismissing \<open>alert-001\<close> in the initial state.
\<close>

theorem C6_dismiss_keeps_alert_witness:
  "hd (generateMockAlerts 0) \<in> set (alerts (initialDashboard 0))
   \<and> id_alert (hd (generateMockAlerts 0)) = ''alert-001''
   \<and> (hd (generateMockAlerts 0))\<lparr>dismissed := True\<rparr>
        \<in> set (alerts (dismissAlert ''alert-001'' (initialDashboard 0)))
   \<and> map id_alert (alerts (dismissAlert ''alert-001'' (initialDashboard 0)))
        = [''alert-001'', ''alert-002'', ''alert-003'', ''alert-004'', ''alert-005'']
   \<and> map id_alert (activeAlerts (dismissAlert ''alert-001'' (initialDashboard 0)))
        = [''alert-002'', ''alert-003'', ''alert-004'', ''alert-005'']"
  using C6_dismiss_keeps_alert [of "hd (generateMockAlerts 0)" "initialDashboard 0" "''alert-001''" ToggleSidebar]
  by (simp add: initialDashboard_def generateMockAlerts_def dismissAlert_def activeAlerts_def)

lemma count_after_acknowledge:
  assumes "distinct (map id_alert xs)" and "a \<in> set xs" and "\<not> acknowledged a" and "\<not> dismissed a"
  shows "Suc (length (filter (\<lambda>a. \<not> acknowledged a \<and> \<not> dismissed a)
            (map (\<lambda>b. if id_alert b = id_alert a then b\<lparr>acknowledged := True\<rparr> else b) xs)))
         = length (filter (\<lambda>a. \<not> acknowledged a \<and> \<not> dismissed a) xs)"
  using assms
proof (induction xs)
  case Nil
  then show ?case by simp
next
  case (Cons x xs)
  show ?case
  proof (cases "x = a")
    case True
    then have nin: "id_alert a \<notin> id_alert ` set xs" using Cons.prems(1) by simp
    have "id_alert b \<noteq> id_alert a" if "b \<in> set xs" for b
    proof
      assume "id_alert b = id_alert a"
      moreover have "id_alert b \<in> id_alert ` set xs" using that by (rule imageI)
      ultimately show False using nin by simp
    qed
    then have "\<forall>b\<in>set xs. id_alert b \<noteq> id_alert a" by blast
    then have "map (\<lambda>b. if id_alert b = id_alert a then b\<lparr>acknowledged := True\<rparr> else b) xs = xs"
      by (simp add: map_idI)
    with True Cons.prems show ?thesis by simp
  next
    case False
    then have a: "a \<in> set xs" using Cons.prems(2) by simp
    then have "id_alert x \<noteq> id_alert a" using Cons.prems(1) by force
    moreover have "distinct (map id_alert xs)" using Cons.prems(1) by simp
    ultimately show ?thesis using Cons.IH [OF _ a Cons.prems(3,4)] by simp
  qed
qed

text \<open>
  The identifiers of the collection. \<open>digits\<close> can be read back, so two times give two
  identifiers; the digits of a time never start with a zero followed by more, so no
  injected alert has an identifier of the initial five. A step either keeps the list of
  identifiers or, in a timer callback, puts the identifier of its time in front. Hence,
  in a run whose timer callbacks read pairwise different times (they are 30 seconds
  apart), the identifiers of the collection are pairwise different. The states of the
  runs from an initial state are the reachable states.
\<close>

lemma digits_small: "n < 10 \<Longrightarrow> digits n = [char_of (48 + n)]"
  by (subst digits.simps) simp

lemma digits_large: "\<not> n < 10 \<Longrightarrow> digits n = digits (n div 10) @ [char_of (48 + n mod 10)]"
  by (subst digits.simps) simp

lemma digits_value: "foldl (\<lambda>acc c. 10 * acc + (of_char c - 48)) 0 (digits n) = n"
proof (induction n rule: digits.induct)
  case (1 n)
  show ?case
  proof (cases "n < 10")
    case True
    then show ?thesis by (simp add: digits_small)
  next
    case False
    have "n mod 10 < 10" by simp
    then have "(48 + n mod 10) mod 256 = 48 + n mod 10" by simp
    with False 1 show ?thesis by (simp add: digits_large)
  qed
qed

lemma digits_inj:
  assumes "digits n = digits m"
  shows "n = m"
proof -
  have "n = foldl (\<lambda>acc c. 10 * acc + (of_char c - 48)) 0 (digits n)"
    by (simp only: digits_value)
  also have "\<dots> = foldl (\<lambda>acc c. 10 * acc + (of_char c - 48)) 0 (digits m)"
    by (simp only: assms)
  also have "\<dots> = m" by (simp only: digits_value)
  finally show ?thesis .
qed

lemma digit_char:
  fixes d :: nat
  assumes "d < 10"
  shows "char_of (48 + d) \<noteq> CHR ''-''" and "0 < d \<Longrightarrow> char_of (48 + d) \<noteq> CHR ''0''"
proof -
  have v: "(of_char (char_of (48 + d)) :: nat) = 48 + d" using assms by simp
  show "char_of (48 + d) \<noteq> CHR ''-''"
  proof
    assume "char_of (48 + d) = CHR ''-''"
    then have "(of_char (char_of (48 + d)) :: nat) = of_char (CHR ''-'')" by (rule arg_cong)
    with v show False by simp
  qed
  show "char_of (48 + d) \<noteq> CHR ''0''" if "0 < d"
  proof
    assume "char_of (48 + d) = CHR ''0''"
    then have "(of_char (char_of (48 + d)) :: nat) = of_char (CHR ''0'')" by (rule arg_cong)
    with v that show False by simp
  qed
qed

lemma digits_not_minus: "c \<in> set (digits n) \<Longrightarrow> c \<noteq> CHR ''-''"
proof (induction n rule: digits.induct)
  case (1 n)
  show ?case
  proof (cases "n < 10")
    case True
    with 1(2) have "c = char_of (48 + n)" by (simp add: digits_small)
    then show ?thesis using digit_char(1) [OF True] by simp
  next
    case False
    have "char_of (48 + n mod 10) \<noteq> CHR ''-''" by (rule digit_char(1)) simp
    moreover have "c \<in> set (digits (n div 10)) \<or> c = char_of (48 + n mod 10)"
      using 1(2) False by (auto simp add: digits_large)
    ultimately show ?thesis using 1(1) [OF False] by auto
  qed
qed

lemma digits_nonempty: "digits n \<noteq> []"
  by (cases "n < 10") (simp_all add: digits_small digits_large)

lemma decimal_inj: "decimal a = decimal b \<Longrightarrow> a = b"
proof -
  assume eq: "decimal a = decimal b"
  have neg_pos: False if "x < 0" "\<not> y < 0" "decimal x = decimal y" for x y
  proof -
    from that have "CHR ''-'' # digits (nat (- x)) = digits (nat y)" by (simp add: decimal_def)
    then have "CHR ''-'' \<in> set (digits (nat y))" by (metis list.set_intros(1))
    then show False using digits_not_minus by blast
  qed
  show ?thesis
  proof (cases "a < 0"; cases "b < 0")
    assume "a < 0" "b < 0"
    with eq have "digits (nat (- a)) = digits (nat (- b))" by (simp add: decimal_def)
    then have "nat (- a) = nat (- b)" by (rule digits_inj)
    with \<open>a < 0\<close> \<open>b < 0\<close> show ?thesis by simp
  next
    assume "a < 0" "\<not> b < 0"
    then show ?thesis using neg_pos eq by blast
  next
    assume "\<not> a < 0" "b < 0"
    then show ?thesis using neg_pos [of b a] eq by simp
  next
    assume "\<not> a < 0" "\<not> b < 0"
    with eq have "digits (nat a) = digits (nat b)" by (simp add: decimal_def)
    then have "nat a = nat b" by (rule digits_inj)
    with \<open>\<not> a < 0\<close> \<open>\<not> b < 0\<close> show ?thesis by simp
  qed
qed

lemma digits_hd: "0 < n \<Longrightarrow> hd (digits n) \<noteq> CHR ''0''"
proof (induction n rule: digits.induct)
  case (1 n)
  show ?case
  proof (cases "n < 10")
    case True
    then show ?thesis using digit_char(2) [OF True 1(2)] by (simp add: digits_small)
  next
    case False
    then have "0 < n div 10" by simp
    then have "hd (digits (n div 10)) \<noteq> CHR ''0''" by (rule 1(1) [OF False])
    then show ?thesis using False digits_nonempty [of "n div 10"] by (simp add: digits_large)
  qed
qed

lemma decimal_no_leading_zero: "decimal t \<noteq> CHR ''0'' # c # cs"
proof
  assume eq: "decimal t = CHR ''0'' # c # cs"
  show False
  proof (cases "t < 0")
    case True
    with eq show False by (simp add: decimal_def)
  next
    case False
    with eq have d: "digits (nat t) = CHR ''0'' # c # cs" by (simp add: decimal_def)
    show False
    proof (cases "0 < nat t")
      case True
      then show False using digits_hd [of "nat t"] d by simp
    next
      case False
      then show False using d by (simp add: digits_small)
    qed
  qed
qed

lemma tick_id_inj: "''alert-'' @ decimal a = ''alert-'' @ decimal b \<Longrightarrow> a = b"
  using decimal_inj [of a b] by simp

lemma tick_id_fresh: "''alert-'' @ decimal t \<notin> set (map id_alert (generateMockAlerts now))"
  using decimal_no_leading_zero [of t] by (simp add: generateMockAlerts_def)

lemma step_ids:
  "map id_alert (alerts (step e s)) = map id_alert (alerts s)
   \<or> (\<exists>now r0 r1 r2 r3. e = AlertTick now r0 r1 r2 r3
        \<and> map id_alert (alerts (step e s)) = (''alert-'' @ decimal now) # map id_alert (alerts s))"
proof (cases e)
  case (DismissAlert i)
  then show ?thesis by (simp only: step.simps dismiss_ids simp_thms)
next
  case (AcknowledgeAlert i)
  then show ?thesis by (simp only: step.simps acknowledge_ids simp_thms)
next
  case (HandleItemClick item)
  then show ?thesis by (simp add: handleItemClick_def toggle_defs setter_defs Let_def)
next
  case (AlertTick now r0 r1 r2 r3)
  then show ?thesis by (simp add: alertTick_def Let_def)
qed (simp_all add: toggle_defs setter_defs Let_def)

lemma tickTimes_Cons:
  "tickTimes (e # es) = tickTimes es
   \<or> (\<exists>now r0 r1 r2 r3. e = AlertTick now r0 r1 r2 r3 \<and> tickTimes (e # es) = now # tickTimes es)"
  by (cases e) simp_all

lemma runEvents_distinct_ids:
  assumes "distinct (map id_alert (alerts s))"
    and "distinct (tickTimes es)"
    and "\<forall>t\<in>set (tickTimes es). ''alert-'' @ decimal t \<notin> set (map id_alert (alerts s))"
  shows "distinct (map id_alert (alerts (runEvents es s)))"
  using assms
proof (induction es arbitrary: s)
  case Nil
  then show ?case by simp
next
  case (Cons e es)
  have d: "distinct (tickTimes es)"
    using Cons.prems(2) tickTimes_Cons [of e es] by auto
  have sub: "set (tickTimes es) \<subseteq> set (tickTimes (e # es))"
    using tickTimes_Cons [of e es] by auto
  have "distinct (map id_alert (alerts (step e s)))
        \<and> (\<forall>t\<in>set (tickTimes es). ''alert-'' @ decimal t \<notin> set (map id_alert (alerts (step e s))))"
  proof (rule disjE [OF step_ids [of e s]])
    assume same: "map id_alert (alerts (step e s)) = map id_alert (alerts s)"
    show ?thesis unfolding same using Cons.prems(1,3) sub by blast
  next
    assume "\<exists>now r0 r1 r2 r3. e = AlertTick now r0 r1 r2 r3
        \<and> map id_alert (alerts (step e s)) = (''alert-'' @ decimal now) # map id_alert (alerts s)"
    then obtain now r0 r1 r2 r3 where e: "e = AlertTick now r0 r1 r2 r3"
      and new: "map id_alert (alerts (step e s)) = (''alert-'' @ decimal now) # map id_alert (alerts s)"
      by (elim exE conjE)
    have tt: "tickTimes (e # es) = now # tickTimes es" by (simp add: e)
    have fresh: "''alert-'' @ decimal now \<notin> set (map id_alert (alerts s))"
      using Cons.prems(3) tt by simp
    have other: "''alert-'' @ decimal t \<noteq> ''alert-'' @ decimal now" if "t \<in> set (tickTimes es)" for t
    proof
      assume "''alert-'' @ decimal t = ''alert-'' @ decimal now"
      then have "t = now" by (rule tick_id_inj)
      with that Cons.prems(2) tt show False by simp
    qed
    have rest: "''alert-'' @ decimal t \<notin> set (map id_alert (alerts s))" if "t \<in> set (tickTimes es)" for t
      using that Cons.prems(3) sub by blast
    show ?thesis unfolding new using fresh Cons.prems(1) other rest by simp
  qed
  then show ?case using Cons.IH [of "step e s"] d by simp
qed

lemma initial_ids_distinct: "distinct (map id_alert (alerts (initialDashboard t0)))"
  by (simp add: initialDashboard_def generateMockAlerts_def)

lemma run_distinct_ids:
  assumes "distinct (tickTimes es)"
  shows "distinct (map id_alert (alerts (runEvents es (initialDashboard t0))))"
proof (rule runEvents_distinct_ids [OF initial_ids_distinct assms])
  show "\<forall>t\<in>set (tickTimes es). ''alert-'' @ decimal t \<notin> set (map id_alert (alerts (initialDashboard t0)))"
    using tick_id_fresh [of _ t0] by (simp add: initialDashboard_def)
qed

lemma reachable_runEvents: "reachable s \<Longrightarrow> reachable (runEvents es s)"
proof (induction es arbitrary: s)
  case Nil
  then show ?case by simp
next
  case (Cons e es)
  from Cons.prems have "reachable (step e s)" by (rule reachable.next_state)
  then show ?case using Cons.IH by simp
qed

lemma runEvents_append: "runEvents (es @ fs) s = runEvents fs (runEvents es s)"
  by (induction es arbitrary: s) simp_all

lemma reachable_is_run: "reachable s \<Longrightarrow> \<exists>t0 es. s = runEvents es (initialDashboard t0)"
proof (induction rule: reachable.induct)
  case (init now)
  have "initialDashboard now = runEvents [] (initialDashboard now)" by simp
  then show ?case by blast
next
  case (next_state s e)
  then obtain t0 es where "s = runEvents es (initialDashboard t0)" by blast
  then have "step e s = runEvents (es @ [e]) (initialDashboard t0)"
    by (simp add: runEvents_append)
  then show ?case by blast
qed

lemma acknowledged_member:
  assumes "a \<in> set (alerts s)" and "id_alert a = i"
  shows "a\<lparr>acknowledged := True\<rparr> \<in> set (alerts (acknowledgeAlert i s))"
proof -
  let ?f = "\<lambda>a. if id_alert a = i then a\<lparr>acknowledged := True\<rparr> else a"
  have "?f a \<in> ?f ` set (alerts s)" using assms(1) by (rule imageI)
  moreover have "?f a = a\<lparr>acknowledged := True\<rparr>" using assms(2) by simp
  ultimately show ?thesis by (simp add: acknowledgeAlert_def)
qed

text \<open>
  Claim C7. \<open>notificationCount\<close> is the number of positions of the collection whose
  alert is neither acknowledged nor dismissed. In every state of a run from the initial
  state whose timer callbacks read pairwise different times, acknowledging an alert that
  is neither acknowledged nor dismissed lowers the count by exactly 1 and leaves the alert,
  now acknowledged, in \<open>activeAlerts\<close>; after the dismissal that follows, no alert with that
  identifier is in \<open>activeAlerts\<close>.
\<close>

theorem C7_notification_count:
  "notificationCount s
     = card {j. j < length (alerts s) \<and> \<not> acknowledged (alerts s ! j) \<and> \<not> dismissed (alerts s ! j)}
   \<and> (s = runEvents es (initialDashboard t0) \<and> distinct (tickTimes es)
        \<and> a \<in> set (alerts s) \<and> id_alert a = i \<and> \<not> acknowledged a \<and> \<not> dismissed a \<longrightarrow>
        notificationCount (acknowledgeAlert i s) + 1 = notificationCount s
        \<and> a\<lparr>acknowledged := True\<rparr> \<in> set (activeAlerts (acknowledgeAlert i s)))
   \<and> (\<forall>b\<in>set (activeAlerts (dismissAlert i (acknowledgeAlert i s))). id_alert b \<noteq> i)"
proof (intro conjI impI)
  show "notificationCount s
     = card {j. j < length (alerts s) \<and> \<not> acknowledged (alerts s ! j) \<and> \<not> dismissed (alerts s ! j)}"
    by (simp add: notificationCount_def length_filter_conv_card)
  show "\<forall>b\<in>set (activeAlerts (dismissAlert i (acknowledgeAlert i s))). id_alert b \<noteq> i"
    using active_after_dismiss [of _ i "acknowledgeAlert i s"] by blast
next
  assume h: "s = runEvents es (initialDashboard t0) \<and> distinct (tickTimes es)
        \<and> a \<in> set (alerts s) \<and> id_alert a = i \<and> \<not> acknowledged a \<and> \<not> dismissed a"
  then have run: "s = runEvents es (initialDashboard t0)" and t: "distinct (tickTimes es)"
    and a: "a \<in> set (alerts s)" and i: "id_alert a = i"
    and n: "\<not> acknowledged a" "\<not> dismissed a" by blast+
  have d: "distinct (map id_alert (alerts s))"
    unfolding run using t by (rule run_distinct_ids)
  show "notificationCount (acknowledgeAlert i s) + 1 = notificationCount s"
    using count_after_acknowledge [OF d a n] i
    by (simp add: notificationCount_def acknowledgeAlert_def)
  have "a\<lparr>acknowledged := True\<rparr> \<in> set (alerts (acknowledgeAlert i s))"
    using a i by (rule acknowledged_member)
  with n show "a\<lparr>acknowledged := True\<rparr> \<in> set (activeAlerts (acknowledgeAlert i s))"
    by (simp add: activeAlerts_def)
qed

text \<open>
  The sidebar is toggled, then a timer callback at time 5 injects an alert; acknowledging
  the injected alert takes the count from 4 to 3.
\<close>

theorem C7_notification_count_witness:
  "distinct (tickTimes [ToggleSidebar, AlertTick 5 (1 / 10) 0 0 0])
   \<and> hd (alerts (runEvents [ToggleSidebar, AlertTick 5 (1 / 10) 0 0 0] (initialDashboard 0)))
       \<in> set (alerts (runEvents [ToggleSidebar, AlertTick 5 (1 / 10) 0 0 0] (initialDashboard 0)))
   \<and> id_alert (hd (alerts (runEvents [ToggleSidebar, AlertTick 5 (1 / 10) 0 0 0] (initialDashboard 0))))
       = ''alert-'' @ decimal 5
   \<and> \<not> acknowledged (hd (alerts (runEvents [ToggleSidebar, AlertTick 5 (1 / 10) 0 0 0] (initialDashboard 0))))
   \<and> \<not> dismissed (hd (alerts (runEvents [ToggleSidebar, AlertTick 5 (1 / 10) 0 0 0] (initialDashboard 0))))
   \<and> notificationCount (runEvents [ToggleSidebar, AlertTick 5 (1 / 10) 0 0 0] (initialDashboard 0)) = 4
   \<and> notificationCount (acknowledgeAlert (''alert-'' @ decimal 5)
        (runEvents [ToggleSidebar, AlertTick 5 (1 / 10) 0 0 0] (initialDashboard 0))) = 3"
proof -
  let ?es = "[ToggleSidebar, AlertTick 5 (1 / 10) 0 0 0]"
  let ?s = "runEvents ?es (initialDashboard 0)"
  let ?a = "hd (alerts ?s)"
  have al: "alerts ?s =
      \<lparr> id_alert = ''alert-'' @ decimal 5, timestamp_alert = 5,
        severity = pick alertSeverities 0, source = pick alertSources 0,
        description = pick alertDescriptions 0, acknowledged = False, dismissed = False \<rparr>
      # generateMockAlerts 0"
    by (simp add: alertTick_def toggleSidebar_def initialDashboard_def Let_def)
  have t: "distinct (tickTimes ?es)" by simp
  have m: "?a \<in> set (alerts ?s)" unfolding al by simp
  have i: "id_alert ?a = ''alert-'' @ decimal 5" unfolding al by simp
  have n: "\<not> acknowledged ?a" "\<not> dismissed ?a" unfolding al by simp_all
  have c: "notificationCount ?s = 4"
    unfolding notificationCount_def al by (simp add: generateMockAlerts_def)
  have "notificationCount (acknowledgeAlert (''alert-'' @ decimal 5) ?s) + 1 = notificationCount ?s"
    using C7_notification_count [of ?s ?es 0 ?a "''alert-'' @ decimal 5"] t m i n by blast
  with c have "notificationCount (acknowledgeAlert (''alert-'' @ decimal 5) ?s) = 3" by simp
  with t m i n c show ?thesis by blast
qed

text \<open>
  Claim C9. Acknowledging or dismissing an identifier that no alert of the collection
  has returns the state it was given: the collection and everything else are unchanged
  (the functions have no error result).
\<close>

theorem C9_unknown_id_noop:
  assumes "i \<notin> set (map id_alert (alerts s))"
  shows "acknowledgeAlert i s = s \<and> dismissAlert i s = s"
proof -
  have "\<forall>a\<in>set (alerts s). id_alert a \<noteq> i" using assms by auto
  then have "map (\<lambda>a. if id_alert a = i then a\<lparr>acknowledged := True\<rparr> else a) (alerts s) = alerts s"
    and "map (\<lambda>a. if id_alert a = i then a\<lparr>dismissed := True\<rparr> else a) (alerts s) = alerts s"
    by (simp_all add: map_idI)
  then show ?thesis by (simp add: acknowledgeAlert_def dismissAlert_def)
qed

text \<open>
  The identifier \<open>alert-999\<close> in the initial state.
\<close>

theorem C9_unknown_id_noop_witness:
  "''alert-999'' \<notin> set (map id_alert (alerts (initialDashboard 0)))
   \<and> acknowledgeAlert ''alert-999'' (initialDashboard 0) = initialDashboard 0
   \<and> dismissAlert ''alert-999'' (initialDashboard 0) = initialDashboard 0"
proof -
  have h: "''alert-999'' \<notin> set (map id_alert (alerts (initialDashboard 0)))"
    by (simp add: initialDashboard_def generateMockAlerts_def)
  show ?thesis using h C9_unknown_id_noop [OF h] by simp
qed

section \<open>Thresholds: results\<close>

text \<open>
  Claim C8. \<open>updateThreshold(key, level, value)\<close> sets the named level of the named
  metric to the value, leaves the other level of that metric and both levels of every
  other metric as they were, and changes no other field of the dashboard state. For
  \<open>updateThreshold("cpu", "warning", 80)\<close>: the cpu warning level is 80, the cpu critical
  level and the pairs of memory, disk, temperature, network and errors are unchanged.
\<close>

theorem C8_updateThreshold_frame:
  "level_at (threshold_at (thresholds (updateThreshold key lvl v s)) key) lvl = v
   \<and> (\<forall>l. l \<noteq> lvl \<longrightarrow>
        level_at (threshold_at (thresholds (updateThreshold key lvl v s)) key) l
          = level_at (threshold_at (thresholds s) key) l)
   \<and> (\<forall>k. k \<noteq> key \<longrightarrow>
        threshold_at (thresholds (updateThreshold key lvl v s)) k = threshold_at (thresholds s) k)
   \<and> updateThreshold key lvl v s = s\<lparr>thresholds := thresholds (updateThreshold key lvl v s)\<rparr>
   \<and> warning (cpu_th (thresholds (updateThreshold KCpu LWarning 80 s))) = 80
   \<and> critical (cpu_th (thresholds (updateThreshold KCpu LWarning 80 s))) = critical (cpu_th (thresholds s))
   \<and> memory_th (thresholds (updateThreshold KCpu LWarning 80 s)) = memory_th (thresholds s)
   \<and> disk_th (thresholds (updateThreshold KCpu LWarning 80 s)) = disk_th (thresholds s)
   \<and> temperature_th (thresholds (updateThreshold KCpu LWarning 80 s)) = temperature_th (thresholds s)
   \<and> network_th (thresholds (updateThreshold KCpu LWarning 80 s)) = network_th (thresholds s)
   \<and> errors_th (thresholds (updateThreshold KCpu LWarning 80 s)) = errors_th (thresholds s)"
proof -
  have a: "level_at (threshold_at (thresholds (updateThreshold key lvl v s)) key) lvl = v"
    by (cases key; cases lvl) (simp_all add: updateThreshold_def)
  have b: "level_at (threshold_at (thresholds (updateThreshold key lvl v s)) key) l
          = level_at (threshold_at (thresholds s) key) l" if "l \<noteq> lvl" for l
    using that by (cases key; cases lvl; cases l) (simp_all add: updateThreshold_def)
  have c: "threshold_at (thresholds (updateThreshold key lvl v s)) k = threshold_at (thresholds s) k"
    if "k \<noteq> key" for k
    using that by (cases key; cases k) (simp_all add: updateThreshold_def)
  have d: "updateThreshold key lvl v s = s\<lparr>thresholds := thresholds (updateThreshold key lvl v s)\<rparr>"
    by (simp add: updateThreshold_def)
  show ?thesis using a b c d by (simp add: updateThreshold_def)
qed

text \<open>
  Setting the cpu warning level to 80 in the initial state.
\<close>

theorem C8_updateThreshold_frame_witness:
  "LCritical \<noteq> LWarning \<and> KMemory \<noteq> KCpu
   \<and> thresholds (updateThreshold KCpu LWarning 80 (initialDashboard 0))
      = defaultThresholds\<lparr>cpu_th := \<lparr>warning = 80, critical = 90\<rparr>\<rparr>
   \<and> level_at (threshold_at (thresholds (updateThreshold KCpu LWarning 80 (initialDashboard 0))) KCpu)
        LCritical = 90
   \<and> threshold_at (thresholds (updateThreshold KCpu LWarning 80 (initialDashboard 0))) KMemory
      = \<lparr>warning = 70, critical = 90\<rparr>"
  using C8_updateThreshold_frame [of KCpu LWarning 80 "initialDashboard 0"]
  by (simp add: updateThreshold_def initialDashboard_def defaultThresholds_def)

end
